theory Spec2Isabelle
  imports Main
begin

section \<open>The inline signal: core/events/simple_bus.py\<close>

text \<open>
  A Python callable is known to a signal only through equality (\<^verbatim>\<open>handler not in self._handlers\<close>),
  so a handler is modelled by its identity, a number. Instances of \<^verbatim>\<open>SimpleSignal\<close> are objects on
  the Python heap: two references may denote the same instance, so signals live in an explicit
  store indexed by object identity.
\<close>

type_synonym handler = nat
type_synonym addr = nat

text \<open>
  A raised Python exception: whether its class derives from \<^verbatim>\<open>Exception\<close> (and not only from
  \<^verbatim>\<open>BaseException\<close>, as \<^verbatim>\<open>KeyboardInterrupt\<close> does), and \<^verbatim>\<open>str(e)\<close>.
\<close>

datatype exn = Exn (is_Exception: bool) (str_of: string)

text \<open>\<^verbatim>\<open>class SimpleSignal\<close>: the single attribute \<^verbatim>\<open>_handlers\<close>, a list.\<close>

record SimpleSignal =
  handlers :: "handler list"

text \<open>\<^verbatim>\<open>SimpleSignal.__init__\<close>\<close>

definition SimpleSignal_init :: SimpleSignal where
  "SimpleSignal_init = \<lparr>handlers = []\<rparr>"

text \<open>
  \<^verbatim>\<open>def connect(self, handler):
      if handler not in self._handlers:
          self._handlers.append(handler)\<close>
\<close>

definition connect :: "handler \<Rightarrow> SimpleSignal \<Rightarrow> SimpleSignal" where
  "connect h s =
     (if h \<notin> set (handlers s) then s\<lparr>handlers := handlers s @ [h]\<rparr> else s)"

text \<open>
  \<^verbatim>\<open>def disconnect(self, handler=None):
      if handler is None:
          self._handlers.clear(); return
      if handler in self._handlers:
          self._handlers.remove(handler)\<close>
  Python's \<^verbatim>\<open>list.remove\<close> deletes the first occurrence.
\<close>

definition disconnect :: "handler option \<Rightarrow> SimpleSignal \<Rightarrow> SimpleSignal" where
  "disconnect ho s =
     (case ho of
        None \<Rightarrow> s\<lparr>handlers := []\<rparr>
      | Some h \<Rightarrow> (if h \<in> set (handlers s) then s\<lparr>handlers := remove1 h (handlers s)\<rparr> else s))"

text \<open>The heap of signal objects, with the allocation counter.\<close>

record pyheap =
  signal_at :: "addr \<Rightarrow> SimpleSignal"
  next_addr :: addr

text \<open>
  What a callback does when it is called with payload \<open>p\<close>: any change of the heap (connecting
  or disconnecting handlers of this or of another signal included), and then either a normal
  return or an exception. The changes made before an exception stay.
\<close>

type_synonym 'p behaviour = "handler \<Rightarrow> 'p \<Rightarrow> pyheap \<Rightarrow> pyheap \<times> exn option"

text \<open>
  The loop of \<^verbatim>\<open>emit\<close> over the copied list: \<^verbatim>\<open>for h in snapshot: h(*args, **kwargs)\<close>.
  There is no \<^verbatim>\<open>try\<close> around the call, so an exception leaves the loop. The third argument
  collects the invocations made so far, in order.
\<close>

fun call_each ::
  "'p behaviour \<Rightarrow> handler list \<Rightarrow> 'p \<Rightarrow> pyheap \<Rightarrow> (handler \<times> 'p) list
     \<Rightarrow> pyheap \<times> (handler \<times> 'p) list \<times> exn option" where
  "call_each beh [] p hp cs = (hp, cs, None)"
| "call_each beh (h # hs) p hp cs =
     (case beh h p hp of
        (hp', Some e) \<Rightarrow> (hp', cs @ [(h, p)], Some e)
      | (hp', None) \<Rightarrow> call_each beh hs p hp' (cs @ [(h, p)]))"

text \<open>
  \<^verbatim>\<open>def emit(self, *args, **kwargs):
      for h in list(self._handlers):
          h(*args, **kwargs)\<close>
  The result is the heap afterwards, the invocations this emit made, and the exception that
  left it, if any.
\<close>

definition emit ::
  "'p behaviour \<Rightarrow> addr \<Rightarrow> 'p \<Rightarrow> pyheap \<Rightarrow> pyheap \<times> (handler \<times> 'p) list \<times> exn option" where
  "emit beh a p hp = call_each beh (handlers (signal_at hp a)) p hp []"

text \<open>Method calls through a reference: the object at \<open>a\<close> is updated in place.\<close>

definition sig_connect :: "addr \<Rightarrow> handler \<Rightarrow> pyheap \<Rightarrow> pyheap" where
  "sig_connect a h hp = hp\<lparr>signal_at := (signal_at hp)(a := connect h (signal_at hp a))\<rparr>"

definition sig_disconnect :: "addr \<Rightarrow> handler option \<Rightarrow> pyheap \<Rightarrow> pyheap" where
  "sig_disconnect a ho hp = hp\<lparr>signal_at := (signal_at hp)(a := disconnect ho (signal_at hp a))\<rparr>"

section \<open>The inline bus: the signal groups and \<^verbatim>\<open>SimpleEventBus\<close>\<close>

text \<open>\<^verbatim>\<open>SimpleSignal()\<close> as an expression: a fresh object with an empty handler list.\<close>

definition new_SimpleSignal :: "pyheap \<Rightarrow> addr \<times> pyheap" where
  "new_SimpleSignal hp =
     (next_addr hp,
      hp\<lparr>signal_at := (signal_at hp)(next_addr hp := SimpleSignal_init),
         next_addr := Suc (next_addr hp)\<rparr>)"

text \<open>
  The three dataclasses. An instance holds, for each field, a reference to a signal object.
  \<^verbatim>\<open>@dataclass
  class _Log:
      message: SimpleSignal = SimpleSignal()\<close>
\<close>

record Log_group =
  message :: addr

record Data_group =
  sequence_activity_changed :: addr
  sequence_data_loaded :: addr

record System_group =
  system_error_occurred :: addr
  system_notification_received :: addr

text \<open>
  The field defaults are expressions of the class bodies: Python evaluates each of them once,
  when the \<^verbatim>\<open>class\<close> statement runs at import, and \<^verbatim>\<open>@dataclass\<close> keeps the resulting object as
  the default value of the parameter of the generated \<^verbatim>\<open>__init__\<close>. The classes of the module
  are therefore described by the objects their defaults denote.
\<close>

record classes =
  Log_defaults :: Log_group
  Data_defaults :: Data_group
  System_defaults :: System_group

text \<open>Importing the module: the class statements in source order (_Log, _Data, _System).\<close>

definition load_module :: "pyheap \<Rightarrow> classes \<times> pyheap" where
  "load_module hp0 =
     (let (m, hp1) = new_SimpleSignal hp0;
          (sa, hp2) = new_SimpleSignal hp1;
          (sd, hp3) = new_SimpleSignal hp2;
          (se, hp4) = new_SimpleSignal hp3;
          (sn, hp5) = new_SimpleSignal hp4
      in (\<lparr>Log_defaults = \<lparr>message = m\<rparr>,
           Data_defaults = \<lparr>sequence_activity_changed = sa, sequence_data_loaded = sd\<rparr>,
           System_defaults = \<lparr>system_error_occurred = se, system_notification_received = sn\<rparr>\<rparr>,
          hp5))"

text \<open>
  The generated constructors, with the optional keyword arguments: an argument that is not
  given takes the default object of the class. No signal is created by a constructor.
\<close>

definition Log_init :: "classes \<Rightarrow> addr option \<Rightarrow> Log_group" where
  "Log_init cls message_arg =
     \<lparr>message = (case message_arg of None \<Rightarrow> message (Log_defaults cls) | Some a \<Rightarrow> a)\<rparr>"

definition Data_init :: "classes \<Rightarrow> addr option \<Rightarrow> addr option \<Rightarrow> Data_group" where
  "Data_init cls activity_arg loaded_arg =
     \<lparr>sequence_activity_changed =
        (case activity_arg of None \<Rightarrow> sequence_activity_changed (Data_defaults cls) | Some a \<Rightarrow> a),
      sequence_data_loaded =
        (case loaded_arg of None \<Rightarrow> sequence_data_loaded (Data_defaults cls) | Some a \<Rightarrow> a)\<rparr>"

definition System_init :: "classes \<Rightarrow> addr option \<Rightarrow> addr option \<Rightarrow> System_group" where
  "System_init cls error_arg notification_arg =
     \<lparr>system_error_occurred =
        (case error_arg of None \<Rightarrow> system_error_occurred (System_defaults cls) | Some a \<Rightarrow> a),
      system_notification_received =
        (case notification_arg of None \<Rightarrow> system_notification_received (System_defaults cls)
         | Some a \<Rightarrow> a)\<rparr>"

datatype group = System System_group | Log Log_group | Data Data_group

text \<open>
  \<^verbatim>\<open>class SimpleEventBus:
      def __init__(self):
          self.system = _System()
          self.log = _Log()
          self.data = _Data()
          self._signal_groups = [self.system, self.log, self.data]\<close>
  The heap is threaded through to show what the constructor allocates.
\<close>

record SimpleEventBus =
  system :: System_group
  log :: Log_group
  data :: Data_group
  signal_groups :: "group list"

definition SimpleEventBus_init :: "classes \<Rightarrow> pyheap \<Rightarrow> SimpleEventBus \<times> pyheap" where
  "SimpleEventBus_init cls hp =
     (let s = System_init cls None None;
          l = Log_init cls None;
          d = Data_init cls None None
      in (\<lparr>system = s, log = l, data = d, signal_groups = [System s, Log l, Data d]\<rparr>, hp))"

text \<open>
  \<^verbatim>\<open>dir(group)\<close> lists the attribute names in sorted order; of these, the loop keeps the ones whose
  value is a \<^verbatim>\<open>SimpleSignal\<close>, which are the fields of the dataclass.
\<close>

fun signal_attrs :: "group \<Rightarrow> (string \<times> addr) list" where
  "signal_attrs (System g) =
     [(''system_error_occurred'', system_error_occurred g),
      (''system_notification_received'', system_notification_received g)]"
| "signal_attrs (Log g) = [(''message'', message g)]"
| "signal_attrs (Data g) =
     [(''sequence_activity_changed'', sequence_activity_changed g),
      (''sequence_data_loaded'', sequence_data_loaded g)]"

text \<open>
  The inner loop of \<^verbatim>\<open>disconnect_all\<close>:
  \<^verbatim>\<open>if signal_name is None or attr == signal_name:
      sig.disconnect()\<close>
\<close>

fun disconnect_attrs :: "string option \<Rightarrow> (string \<times> addr) list \<Rightarrow> pyheap \<Rightarrow> pyheap" where
  "disconnect_attrs signal_name [] hp = hp"
| "disconnect_attrs signal_name ((attr, sig) # rest) hp =
     disconnect_attrs signal_name rest
       (if signal_name = None \<or> signal_name = Some attr then sig_disconnect sig None hp else hp)"

text \<open>The outer loop, \<^verbatim>\<open>for group in self._signal_groups\<close>.\<close>

fun disconnect_groups :: "string option \<Rightarrow> group list \<Rightarrow> pyheap \<Rightarrow> pyheap" where
  "disconnect_groups signal_name [] hp = hp"
| "disconnect_groups signal_name (g # gs) hp =
     disconnect_groups signal_name gs (disconnect_attrs signal_name (signal_attrs g) hp)"

definition disconnect_all :: "SimpleEventBus \<Rightarrow> string option \<Rightarrow> pyheap \<Rightarrow> pyheap" where
  "disconnect_all bus signal_name hp = disconnect_groups signal_name (signal_groups bus) hp"

text \<open>Every signal a bus reaches, with the attribute name it is reached by.\<close>

definition bus_signals :: "SimpleEventBus \<Rightarrow> (string \<times> addr) list" where
  "bus_signals bus = concat (map signal_attrs (signal_groups bus))"

section \<open>The Qt bus: core/events/qt_bus.py\<close>

text \<open>
  The signal groups are \<^verbatim>\<open>QObject\<close>s. What \<^verbatim>\<open>disconnect_all\<close> reads of one is its meta-object, the
  table of its methods with their kinds (the signals inherited from \<^verbatim>\<open>QObject\<close> included), and
  the attribute of each name; what it changes is the list of slots connected to a signal.
\<close>

datatype method_type = Method | Signal | Slot | Constructor

datatype qt_error = RuntimeError | TypeError

record QSignalGroup =
  metaObject :: "(string \<times> method_type) list option"
  connections :: "string \<rightharpoonup> handler list"

text \<open>
  \<^verbatim>\<open>sig.disconnect()\<close> of PySide6 removes every connection of the signal. With nothing connected
  it may raise, as the comment in the source says; the connection list is empty either way.
\<close>

definition qt_signal_disconnect :: "handler list \<Rightarrow> qt_error + handler list" where
  "qt_signal_disconnect conns = (if conns = [] then Inl RuntimeError else Inr [])"

text \<open>
  \<^verbatim>\<open>for i in range(meta.methodCount()):
      m = meta.method(i)
      if m.methodType() != QMetaMethod.MethodType.Signal: continue
      sig_name = m.name().data().decode("utf-8")
      if signal_name is None or sig_name == signal_name:
          sig = getattr(group, sig_name, None)
          if sig is not None:
              try: sig.disconnect()
              except (TypeError, RuntimeError): pass\<close>
\<close>

fun qt_disconnect_methods ::
  "string option \<Rightarrow> (string \<times> method_type) list \<Rightarrow> (string \<rightharpoonup> handler list)
     \<Rightarrow> (string \<rightharpoonup> handler list)" where
  "qt_disconnect_methods signal_name [] conns = conns"
| "qt_disconnect_methods signal_name ((sig_name, mt) # rest) conns =
     qt_disconnect_methods signal_name rest
       (if mt \<noteq> Signal then conns
        else if signal_name = None \<or> signal_name = Some sig_name then
          (case conns sig_name of
             None \<Rightarrow> conns
           | Some c \<Rightarrow>
               (case qt_signal_disconnect c of
                  Inr c' \<Rightarrow> conns(sig_name \<mapsto> c')
                | Inl TypeError \<Rightarrow> conns
                | Inl RuntimeError \<Rightarrow> conns))
        else conns)"

text \<open>One group: \<^verbatim>\<open>meta = group.metaObject(); if meta is None: continue\<close>.\<close>

definition qt_disconnect_group :: "string option \<Rightarrow> QSignalGroup \<Rightarrow> QSignalGroup" where
  "qt_disconnect_group signal_name g =
     (case metaObject g of
        None \<Rightarrow> g
      | Some meta \<Rightarrow> g\<lparr>connections := qt_disconnect_methods signal_name meta (connections g)\<rparr>)"

text \<open>
  \<^verbatim>\<open>class _EventBusBackend(QObject)\<close>: the three group objects, each built by the constructor and
  owned by this backend, in the order of \<^verbatim>\<open>self._signal_groups = [self.system, self.log, self.data]\<close>.
\<close>

record EventBusBackend =
  q_system :: QSignalGroup
  q_log :: QSignalGroup
  q_data :: QSignalGroup

definition qt_disconnect_all :: "EventBusBackend \<Rightarrow> string option \<Rightarrow> EventBusBackend" where
  "qt_disconnect_all b signal_name =
     b\<lparr>q_system := qt_disconnect_group signal_name (q_system b),
       q_log := qt_disconnect_group signal_name (q_log b),
       q_data := qt_disconnect_group signal_name (q_data b)\<rparr>"

text \<open>
  The proxy \<^verbatim>\<open>EventBus\<close>: the backend is built at the first use (\<^verbatim>\<open>_qobject\<close>), and
  \<^verbatim>\<open>disconnect_all\<close> is forwarded to it. \<open>fresh\<close> is the backend \<^verbatim>\<open>_EventBusBackend()\<close> would build.
\<close>

record EventBus =
  backend :: "EventBusBackend option"

definition qobject :: "EventBusBackend \<Rightarrow> EventBus \<Rightarrow> EventBusBackend \<times> EventBus" where
  "qobject fresh bus =
     (case backend bus of
        None \<Rightarrow> (fresh, bus\<lparr>backend := Some fresh\<rparr>)
      | Some b \<Rightarrow> (b, bus))"

definition EventBus_disconnect_all :: "EventBusBackend \<Rightarrow> EventBus \<Rightarrow> string option \<Rightarrow> EventBus" where
  "EventBus_disconnect_all fresh bus signal_name =
     (let (b, bus') = qobject fresh bus
      in bus'\<lparr>backend := Some (qt_disconnect_all b signal_name)\<rparr>)"

text \<open>The groups of a backend, as \<^verbatim>\<open>self._signal_groups\<close> lists them.\<close>

definition qt_signal_groups :: "EventBusBackend \<Rightarrow> QSignalGroup list" where
  "qt_signal_groups b = [q_system b, q_log b, q_data b]"

section \<open>Workers and the service: workers/base_worker.py, services/base_service.py\<close>

text \<open>
  \<^verbatim>\<open>QThread\<close>s and workers are Qt objects, referred to by identity. The registry
  \<^verbatim>\<open>_active_workers: Dict[str, Tuple[QThread, QObject]]\<close> maps a key to two such references.
\<close>

type_synonym tid = nat
type_synonym wid = nat

text \<open>
  What the service logs goes to \<^verbatim>\<open>EVENT_BUS.log.message.emit(self.log_source, message, level)\<close>. The
  messages are f-strings with the worker id (and, for one, the error text) formatted in; each
  constructor stands for the f-string of one call site, named after what it reports.
\<close>

datatype level = INFO | WARNING | ERROR | DEBUG

datatype log_text =
    Interrupting_existing "string option"
  | Already_running "string option"
  | Worker_error "string option" string
  | Setup_done "string option"
  | Cleanup_skipped "string option"
  | Stop_requested "string option"
  | Emergency_stop "string option"
  | Not_responding "string option"
  | Already_deleted "string option"
  | Removed_from_registry "string option"
  | No_run_method "string option"

text \<open>The calls the service makes on a thread that change it, in the order made.\<close>

datatype qthread_call = RequestInterruption | Quit | Wait "nat option" | Terminate | Start

text \<open>
  The closures the service connects to signals, with the variables each one captures:
  the two lambdas on \<^verbatim>\<open>worker_error_occurred\<close>, then \<^verbatim>\<open>thread.quit\<close>, \<^verbatim>\<open>worker.deleteLater\<close>, the
  lambda on \<^verbatim>\<open>worker_task_finished\<close>, \<^verbatim>\<open>thread.deleteLater\<close> and \<^verbatim>\<open>worker.run\<close>.
\<close>

datatype slot =
    Log_error_slot "string option"
  | Cleanup_by_id_slot "string option"
  | Thread_quit_slot tid
  | Worker_deleteLater_slot wid
  | Cleanup_slot tid wid "string option"
  | Thread_deleteLater_slot tid
  | Worker_run_slot wid

text \<open>
  A \<^verbatim>\<open>QThread\<close>: whether it is running; whether the underlying Qt object is gone, so that every
  call on it raises \<^verbatim>\<open>RuntimeError\<close>; whether the thread, asked to stop, leaves its event loop
  within a bounded wait (the thread's own doing, not the service's); and the slots connected
  to its \<^verbatim>\<open>started\<close> and \<^verbatim>\<open>finished\<close> signals.
\<close>

record QThread =
  running :: bool
  deleted :: bool
  responds :: bool
  started_slots :: "slot list"
  finished_slots :: "slot list"

text \<open>
  A worker object: which of the attributes the service probes with \<^verbatim>\<open>hasattr\<close> it has, the slots
  connected to its two completion signals, the thread it was moved to, and whether
  \<^verbatim>\<open>deleteLater\<close> was called on it.
\<close>

record worker =
  has_worker_error_occurred :: bool
  has_worker_task_finished :: bool
  has_run :: bool
  error_slots :: "slot list"
  finished_slots_of :: "slot list"
  moved_to :: "tid option"
  delete_later :: bool

text \<open>An emission of one of a worker's completion signals.\<close>

datatype completion = Finished | Failed string

text \<open>
  The state: the registry of the service, the Qt objects, what was logged through the bus, the
  calls made on threads and the completion signals emitted so far.
\<close>

record state =
  active_workers :: "string \<rightharpoonup> tid \<times> wid"
  thread_at :: "tid \<Rightarrow> QThread"
  next_thread :: tid
  worker_at :: "wid \<Rightarrow> worker"
  bus_log :: "(level \<times> log_text) list"
  thread_calls :: "(tid \<times> qthread_call) list"
  emitted :: "(wid \<times> completion) list"

subsection \<open>Logging\<close>

definition log_message :: "log_text \<Rightarrow> level \<Rightarrow> state \<Rightarrow> state" where
  "log_message m l s = s\<lparr>bus_log := bus_log s @ [(l, m)]\<rparr>"

definition log_info :: "log_text \<Rightarrow> state \<Rightarrow> state" where
  "log_info m s = log_message m INFO s"

definition log_warning :: "log_text \<Rightarrow> state \<Rightarrow> state" where
  "log_warning m s = log_message m WARNING s"

definition log_error :: "log_text \<Rightarrow> state \<Rightarrow> state" where
  "log_error m s = log_message m ERROR s"

subsection \<open>The methods of \<^verbatim>\<open>QThread\<close> the service calls\<close>

text \<open>\<^verbatim>\<open>QThread()\<close>: a new thread object, not running.\<close>

definition new_QThread :: "state \<Rightarrow> tid \<times> state" where
  "new_QThread s =
     (next_thread s,
      s\<lparr>thread_at := (thread_at s)(next_thread s :=
           (thread_at s (next_thread s))\<lparr>running := False, deleted := False,
              started_slots := [], finished_slots := []\<rparr>),
        next_thread := Suc (next_thread s)\<rparr>)"

text \<open>\<^verbatim>\<open>thread.isRunning()\<close> raises \<^verbatim>\<open>RuntimeError\<close>, and nothing else, when the Qt object is gone.\<close>

definition QThread_isRunning :: "tid \<Rightarrow> state \<Rightarrow> qt_error + bool" where
  "QThread_isRunning t s =
     (if deleted (thread_at s t) then Inl RuntimeError else Inr (running (thread_at s t)))"

definition QThread_requestInterruption :: "tid \<Rightarrow> state \<Rightarrow> state" where
  "QThread_requestInterruption t s = s\<lparr>thread_calls := thread_calls s @ [(t, RequestInterruption)]\<rparr>"

definition QThread_quit :: "tid \<Rightarrow> state \<Rightarrow> state" where
  "QThread_quit t s = s\<lparr>thread_calls := thread_calls s @ [(t, Quit)]\<rparr>"

text \<open>
  \<^verbatim>\<open>thread.wait(ms)\<close> returns whether the thread has finished when the time is over; \<^verbatim>\<open>thread.wait()\<close>
  returns when it has finished.
\<close>

definition QThread_wait :: "tid \<Rightarrow> nat option \<Rightarrow> state \<Rightarrow> bool \<times> state" where
  "QThread_wait t timeout s =
     (let s1 = s\<lparr>thread_calls := thread_calls s @ [(t, Wait timeout)]\<rparr>;
          ended = (\<not> running (thread_at s t) \<or> responds (thread_at s t) \<or> timeout = None)
      in (ended,
          if ended then s1\<lparr>thread_at := (thread_at s1)(t := (thread_at s1 t)\<lparr>running := False\<rparr>)\<rparr>
          else s1))"

definition QThread_terminate :: "tid \<Rightarrow> state \<Rightarrow> state" where
  "QThread_terminate t s =
     s\<lparr>thread_calls := thread_calls s @ [(t, Terminate)],
       thread_at := (thread_at s)(t := (thread_at s t)\<lparr>running := False\<rparr>)\<rparr>"

definition QThread_start :: "tid \<Rightarrow> state \<Rightarrow> state" where
  "QThread_start t s =
     s\<lparr>thread_calls := thread_calls s @ [(t, Start)],
       thread_at := (thread_at s)(t := (thread_at s t)\<lparr>running := True\<rparr>)\<rparr>"

subsection \<open>\<^verbatim>\<open>BaseService._cleanup_worker\<close>\<close>

text \<open>
  The test \<^verbatim>\<open>worker_id and worker_id in self._active_workers\<close>, with the entry it finds: \<^verbatim>\<open>None\<close>
  and the empty string are false.
\<close>

definition registered :: "string option \<Rightarrow> state \<Rightarrow> (tid \<times> wid) option" where
  "registered worker_id s =
     (case worker_id of
        None \<Rightarrow> None
      | Some k \<Rightarrow> if k = [] then None else active_workers s k)"

text \<open>
  Step 2, the \<^verbatim>\<open>try\<close> block:
  \<^verbatim>\<open>if target_thread and target_thread.isRunning():
      self.log_info(...)
      if force:
          self.log_warning(...); target_thread.terminate(); target_thread.wait()
      else:
          target_thread.requestInterruption(); target_thread.quit()
          if not target_thread.wait(1000): self.log_warning(...)
  except RuntimeError: self.log_info(...)\<close>
\<close>

definition stop_thread :: "tid option \<Rightarrow> string option \<Rightarrow> bool \<Rightarrow> state \<Rightarrow> state" where
  "stop_thread target_thread worker_id force s =
     (case target_thread of
        None \<Rightarrow> s
      | Some t \<Rightarrow>
          (case QThread_isRunning t s of
             Inl err \<Rightarrow> log_info (Already_deleted worker_id) s
           | Inr False \<Rightarrow> s
           | Inr True \<Rightarrow>
               (let s1 = log_info (Stop_requested worker_id) s in
                if force then
                  snd (QThread_wait t None
                         (QThread_terminate t (log_warning (Emergency_stop worker_id) s1)))
                else
                  (case QThread_wait t (Some 1000)
                          (QThread_quit t (QThread_requestInterruption t s1)) of
                     (True, s2) \<Rightarrow> s2
                   | (False, s2) \<Rightarrow> log_warning (Not_responding worker_id) s2))))"

text \<open>
  Step 3:
  \<^verbatim>\<open>if worker_id and worker_id in self._active_workers:
      del self._active_workers[worker_id]
      self.log_info(...)\<close>
\<close>

definition remove_entry :: "string option \<Rightarrow> state \<Rightarrow> state" where
  "remove_entry worker_id s =
     (case worker_id of
        None \<Rightarrow> s
      | Some k \<Rightarrow>
          if k \<noteq> [] \<and> active_workers s k \<noteq> None
          then log_info (Removed_from_registry worker_id)
                 (s\<lparr>active_workers := (active_workers s)(k := None)\<rparr>)
          else s)"

text \<open>
  \<^verbatim>\<open>def _cleanup_worker(self, thread=None, worker=None, worker_id=None, force=False)\<close>. Step 1
  looks the entry up; without a \<^verbatim>\<open>thread\<close> argument the stored thread is the target; when the
  target is not the stored thread the method logs a warning and returns.
\<close>

definition cleanup_worker ::
  "tid option \<Rightarrow> wid option \<Rightarrow> string option \<Rightarrow> bool \<Rightarrow> state \<Rightarrow> state" where
  "cleanup_worker thread worker worker_id force s =
     (case registered worker_id s of
        Some (stored_thread, stored_worker) \<Rightarrow>
          (let target_thread = (case thread of None \<Rightarrow> stored_thread | Some t \<Rightarrow> t) in
           if target_thread \<noteq> stored_thread then log_warning (Cleanup_skipped worker_id) s
           else remove_entry worker_id (stop_thread (Some target_thread) worker_id force s))
      | None \<Rightarrow> remove_entry worker_id (stop_thread thread worker_id force s))"

subsection \<open>\<^verbatim>\<open>BaseService._setup_worker_thread\<close> and \<^verbatim>\<open>start_worker\<close>\<close>

definition connect_error_slot :: "wid \<Rightarrow> slot \<Rightarrow> state \<Rightarrow> state" where
  "connect_error_slot w sl s =
     s\<lparr>worker_at := (worker_at s)(w := (worker_at s w)\<lparr>error_slots := error_slots (worker_at s w) @ [sl]\<rparr>)\<rparr>"

definition connect_finished_slot :: "wid \<Rightarrow> slot \<Rightarrow> state \<Rightarrow> state" where
  "connect_finished_slot w sl s =
     s\<lparr>worker_at := (worker_at s)(w := (worker_at s w)\<lparr>finished_slots_of :=
          finished_slots_of (worker_at s w) @ [sl]\<rparr>)\<rparr>"

definition connect_thread_finished :: "tid \<Rightarrow> slot \<Rightarrow> state \<Rightarrow> state" where
  "connect_thread_finished t sl s =
     s\<lparr>thread_at := (thread_at s)(t := (thread_at s t)\<lparr>finished_slots :=
          finished_slots (thread_at s t) @ [sl]\<rparr>)\<rparr>"

definition connect_thread_started :: "tid \<Rightarrow> slot \<Rightarrow> state \<Rightarrow> state" where
  "connect_thread_started t sl s =
     s\<lparr>thread_at := (thread_at s)(t := (thread_at s t)\<lparr>started_slots :=
          started_slots (thread_at s t) @ [sl]\<rparr>)\<rparr>"

definition moveToThread :: "wid \<Rightarrow> tid \<Rightarrow> state \<Rightarrow> state" where
  "moveToThread w t s = s\<lparr>worker_at := (worker_at s)(w := (worker_at s w)\<lparr>moved_to := Some t\<rparr>)\<rparr>"

text \<open>
  Steps 1 to 5 of \<^verbatim>\<open>_setup_worker_thread\<close>: the new thread, \<^verbatim>\<open>moveToThread\<close>, the connections made
  when the worker has the signal, and the registration under a true \<^verbatim>\<open>worker_id\<close>.
\<close>

definition wire_worker :: "wid \<Rightarrow> string option \<Rightarrow> state \<Rightarrow> (tid \<times> wid) \<times> state" where
  "wire_worker w worker_id s =
     (let (thread, s1) = new_QThread s;
          s2 = moveToThread w thread s1;
          s3 = (if has_worker_error_occurred (worker_at s2 w)
                then connect_error_slot w (Cleanup_by_id_slot worker_id)
                       (connect_error_slot w (Log_error_slot worker_id) s2)
                else s2);
          s4 = (if has_worker_task_finished (worker_at s3 w)
                then connect_finished_slot w (Cleanup_slot thread w worker_id)
                       (connect_thread_finished thread (Thread_deleteLater_slot thread)
                          (connect_finished_slot w (Worker_deleteLater_slot w)
                             (connect_finished_slot w (Thread_quit_slot thread) s3)))
                else s3);
          s5 = (case worker_id of
                  None \<Rightarrow> s4
                | Some k \<Rightarrow>
                    if k = [] then s4
                    else log_info (Setup_done worker_id)
                           (s4\<lparr>active_workers := (active_workers s4)(k \<mapsto> (thread, w))\<rparr>))
      in ((thread, w), s5))"

text \<open>
  Step 0, the existing entry. \<^verbatim>\<open>existing_thread.isRunning()\<close> stands outside any \<^verbatim>\<open>try\<close>: its
  \<^verbatim>\<open>RuntimeError\<close> leaves the method. The result is the error, or \<^verbatim>\<open>None\<close> for a rejected request,
  or the pair \<^verbatim>\<open>(thread, worker)\<close>.
\<close>

definition setup_worker_thread ::
  "wid \<Rightarrow> string option \<Rightarrow> bool \<Rightarrow> state \<Rightarrow> (qt_error + (tid \<times> wid) option) \<times> state" where
  "setup_worker_thread w worker_id force_interrupt s =
     (case registered worker_id s of
        Some (existing_thread, existing_worker) \<Rightarrow>
          (case QThread_isRunning existing_thread s of
             Inl err \<Rightarrow> (Inl err, s)
           | Inr True \<Rightarrow>
               if force_interrupt then
                 (let (r, s') = wire_worker w worker_id
                        (cleanup_worker None None worker_id False
                           (log_warning (Interrupting_existing worker_id) s))
                  in (Inr (Some r), s'))
               else (Inr None, log_warning (Already_running worker_id) s)
           | Inr False \<Rightarrow>
               (let (r, s') = wire_worker w worker_id (cleanup_worker None None worker_id False s)
                in (Inr (Some r), s')))
      | None \<Rightarrow> (let (r, s') = wire_worker w worker_id s in (Inr (Some r), s')))"

text \<open>
  \<^verbatim>\<open>def start_worker(self, worker, worker_id=None, force_interrupt=False)\<close>: the thread that was
  started, or \<^verbatim>\<open>None\<close>.
\<close>

definition start_worker ::
  "wid \<Rightarrow> string option \<Rightarrow> bool \<Rightarrow> state \<Rightarrow> (qt_error + tid option) \<times> state" where
  "start_worker w worker_id force_interrupt s =
     (case setup_worker_thread w worker_id force_interrupt s of
        (Inl err, s') \<Rightarrow> (Inl err, s')
      | (Inr None, s') \<Rightarrow> (Inr None, s')
      | (Inr (Some (thread, w')), s') \<Rightarrow>
          (let s1 = (if has_run (worker_at s' w')
                     then connect_thread_started thread (Worker_run_slot w') s'
                     else log_warning (No_run_method worker_id) s')
           in (Inr (Some thread), QThread_start thread s1)))"

definition stop_worker :: "string \<Rightarrow> state \<Rightarrow> state" where
  "stop_worker worker_id s = cleanup_worker None None (Some worker_id) False s"

definition force_stop_worker :: "string \<Rightarrow> state \<Rightarrow> state" where
  "force_stop_worker worker_id s = cleanup_worker None None (Some worker_id) True s"

subsection \<open>The completion signals and \<^verbatim>\<open>BaseWorker.run\<close>\<close>

text \<open>
  Calling one connected slot with the argument of the signal. An exception inside a slot does
  not reach the emitter: \<^verbatim>\<open>thread.quit\<close> on a deleted thread is dropped. The slots on the
  thread's own signals are run by Qt when the thread starts and ends, not by an emission of a
  worker's signal.
\<close>

fun invoke_slot :: "slot \<Rightarrow> string \<Rightarrow> state \<Rightarrow> state" where
  "invoke_slot (Log_error_slot worker_id) msg s = log_error (Worker_error worker_id msg) s"
| "invoke_slot (Cleanup_by_id_slot worker_id) msg s = cleanup_worker None None worker_id False s"
| "invoke_slot (Thread_quit_slot t) msg s =
     (if deleted (thread_at s t) then s else QThread_quit t s)"
| "invoke_slot (Worker_deleteLater_slot w) msg s =
     s\<lparr>worker_at := (worker_at s)(w := (worker_at s w)\<lparr>delete_later := True\<rparr>)\<rparr>"
| "invoke_slot (Cleanup_slot t w worker_id) msg s = cleanup_worker (Some t) (Some w) worker_id False s"
| "invoke_slot (Thread_deleteLater_slot t) msg s = s"
| "invoke_slot (Worker_run_slot w) msg s = s"

fun invoke_slots :: "slot list \<Rightarrow> string \<Rightarrow> state \<Rightarrow> state" where
  "invoke_slots [] msg s = s"
| "invoke_slots (sl # sls) msg s = invoke_slots sls msg (invoke_slot sl msg s)"

text \<open>\<^verbatim>\<open>self.worker_error_occurred.emit(msg)\<close> and \<^verbatim>\<open>self.worker_task_finished.emit()\<close>.\<close>

definition emit_error :: "wid \<Rightarrow> string \<Rightarrow> state \<Rightarrow> state" where
  "emit_error w msg s =
     invoke_slots (error_slots (worker_at s w)) msg (s\<lparr>emitted := emitted s @ [(w, Failed msg)]\<rparr>)"

definition emit_finished :: "wid \<Rightarrow> state \<Rightarrow> state" where
  "emit_finished w s =
     invoke_slots (finished_slots_of (worker_at s w)) [] (s\<lparr>emitted := emitted s @ [(w, Finished)]\<rparr>)"

text \<open>What the body \<^verbatim>\<open>process()\<close> of a worker does: it returns, or it raises.\<close>

datatype outcome = Returns | Raises exn

text \<open>
  \<^verbatim>\<open>def run(self):
      try:
          self.process()
          self.worker_task_finished.emit()
      except Exception as e:
          self.worker_error_occurred.emit(str(e))\<close>
  The result is the exception that leaves \<^verbatim>\<open>run\<close>, if any: \<^verbatim>\<open>except Exception\<close> does not catch an
  exception that is only a \<^verbatim>\<open>BaseException\<close>.
\<close>

definition run :: "outcome \<Rightarrow> wid \<Rightarrow> state \<Rightarrow> exn option \<times> state" where
  "run process w s =
     (case process of
        Returns \<Rightarrow> (None, emit_finished w s)
      | Raises e \<Rightarrow> if is_Exception e then (None, emit_error w (str_of e) s) else (Some e, s))"

section \<open>Concrete inputs\<close>

text \<open>Heaps with one signal object, at address 0, and callbacks that raise, disconnect or connect.\<close>

definition two_handlers :: pyheap where
  "two_handlers =
     \<lparr>signal_at = (\<lambda>a. if a = 0 then \<lparr>handlers = [1, 2]\<rparr> else SimpleSignal_init), next_addr = 1\<rparr>"


definition raising_behaviour :: "unit behaviour" where
  "raising_behaviour h p hp = (hp, if h = 1 then Some (Exn True ''boom'') else None)"



definition three_handlers :: pyheap where
  "three_handlers =
     \<lparr>signal_at = (\<lambda>a. if a = 0 then \<lparr>handlers = [1, 2, 3]\<rparr> else SimpleSignal_init), next_addr = 1\<rparr>"

text \<open>
  Handler 1 disconnects handler 3; handler 2 raises when it finds handler 3 gone, and returns
  otherwise: whether it raises depends on the heap it is called in.
\<close>

definition moody_behaviour :: "unit behaviour" where
  "moody_behaviour h p hp =
     (if h = 1 then (sig_disconnect 0 (Some 3) hp, None)
      else if h = 2 then
        (hp, if 3 \<in> set (handlers (signal_at hp 0)) then None else Some (Exn True ''moody''))
      else (hp, None))"




text \<open>The heap before the module is imported, and the module's classes after the import.\<close>

definition empty_heap :: pyheap where
  "empty_heap = \<lparr>signal_at = (\<lambda>a. SimpleSignal_init), next_addr = 0\<rparr>"

definition loaded_classes :: classes where
  "loaded_classes = fst (load_module empty_heap)"

definition loaded_heap :: pyheap where
  "loaded_heap = snd (load_module empty_heap)"

definition first_bus :: SimpleEventBus where
  "first_bus = fst (SimpleEventBus_init loaded_classes loaded_heap)"


text \<open>A Qt backend whose log group has a listener on \<^verbatim>\<open>message\<close> and one on \<^verbatim>\<open>destroyed\<close>.\<close>

definition sample_log_group :: QSignalGroup where
  "sample_log_group =
     \<lparr>metaObject = Some [(''destroyed'', Signal), (''deleteLater'', Slot), (''message'', Signal)],
      connections = [''destroyed'' \<mapsto> [6], ''message'' \<mapsto> [5]]\<rparr>"

definition sample_backend :: EventBusBackend where
  "sample_backend =
     \<lparr>q_system = \<lparr>metaObject = Some [(''system_error_occurred'', Signal)],
                  connections = [''system_error_occurred'' \<mapsto> [4]]\<rparr>,
      q_log = sample_log_group,
      q_data = \<lparr>metaObject = Some [], connections = Map.empty\<rparr>\<rparr>"

text \<open>The loaded heap with handler 7 on \<^verbatim>\<open>log.message\<close> and handler 8 on \<^verbatim>\<open>system.system_error_occurred\<close>.\<close>

definition busy_heap :: pyheap where
  "busy_heap =
     sig_connect (system_error_occurred (system first_bus)) 8
       (sig_connect (message (log first_bus)) 7 loaded_heap)"

text \<open>
  A service with nothing registered; every worker is a \<^verbatim>\<open>BaseWorker\<close> (both signals and \<^verbatim>\<open>run\<close>),
  and no thread leaves its event loop within the bounded wait.
\<close>

definition base_worker :: worker where
  "base_worker =
     \<lparr>has_worker_error_occurred = True, has_worker_task_finished = True, has_run = True,
      error_slots = [], finished_slots_of = [], moved_to = None, delete_later = False\<rparr>"

definition idle_thread :: QThread where
  "idle_thread =
     \<lparr>running = False, deleted = False, responds = False, started_slots = [], finished_slots = []\<rparr>"

definition initial_state :: state where
  "initial_state =
     \<lparr>active_workers = Map.empty, thread_at = (\<lambda>t. idle_thread), next_thread = 3,
      worker_at = (\<lambda>w. base_worker), bus_log = [], thread_calls = [], emitted = []\<rparr>"

text \<open>Worker 7 is started under the key \<^verbatim>\<open>"scan"\<close> on thread 3; then worker 8, on thread 4, replaces it with \<^verbatim>\<open>force_interrupt\<close>.\<close>

definition scan_started :: state where
  "scan_started = snd (start_worker 7 (Some ''scan'') False initial_state)"

definition scan_replaced :: state where
  "scan_replaced = snd (start_worker 8 (Some ''scan'') True scan_started)"

section \<open>Properties of the inline signal\<close>

lemma call_each_calls:
  "call_each beh hs p hp cs = (hp', cs', r) \<Longrightarrow>
     \<exists>n \<le> length hs. cs' = cs @ map (\<lambda>h. (h, p)) (take n hs) \<and> (r = None \<longrightarrow> n = length hs)"
proof (induction hs arbitrary: hp cs)
  case Nil
  then show ?case by simp
next
  case (Cons h hs)
  obtain hp1 r1 where b: "beh h p hp = (hp1, r1)" by (cases "beh h p hp")
  show ?case
  proof (cases r1)
    case None
    with Cons.prems b have "call_each beh hs p hp1 (cs @ [(h, p)]) = (hp', cs', r)" by simp
    from Cons.IH [OF this] obtain n where
      n: "n \<le> length hs" "cs' = (cs @ [(h, p)]) @ map (\<lambda>h. (h, p)) (take n hs)"
         "r = None \<longrightarrow> n = length hs" by blast
    then show ?thesis by (intro exI [of _ "Suc n"]) simp
  next
    case (Some e)
    with Cons.prems b have "cs' = cs @ [(h, p)]" "r = Some e" by simp_all
    then show ?thesis by (intro exI [of _ "Suc 0"]) simp
  qed
qed

lemma call_each_normal:
  "call_each beh hs p hp cs = (hp', cs', None) \<Longrightarrow> cs' = cs @ map (\<lambda>h. (h, p)) hs"
  using call_each_calls [of beh hs p hp cs hp' cs' None] by auto

lemma call_each_append:
  "call_each beh (xs @ ys) p hp cs =
     (case call_each beh xs p hp cs of
        (hp1, cs1, None) \<Rightarrow> call_each beh ys p hp1 cs1
      | (hp1, cs1, Some e) \<Rightarrow> (hp1, cs1, Some e))"
proof (induction xs arbitrary: hp cs)
  case Nil
  then show ?case by simp
next
  case (Cons x xs)
  obtain hp1 r1 where b: "beh x p hp = (hp1, r1)" by (cases "beh x p hp")
  show ?case
  proof (cases r1)
    case None
    with b Cons.IH [of hp1 "cs @ [(x, p)]"] show ?thesis by simp
  next
    case (Some e)
    with b show ?thesis by simp
  qed
qed

text \<open>
  The run of the loop up to the first raise: the handlers before position \<open>i\<close> return, which
  leaves the heap \<open>hpi\<close>, and the handler at position \<open>i\<close>, called in \<open>hpi\<close>, raises.
\<close>

lemma call_each_raise_at:
  assumes "i < length hs"
    and "call_each beh (take i hs) p hp cs = (hpi, csi, None)"
    and "beh (hs ! i) p hpi = (hp', Some e)"
  shows "call_each beh hs p hp cs = (hp', cs @ map (\<lambda>h. (h, p)) (take (Suc i) hs), Some e)"
proof -
  have hs: "hs = take i hs @ (hs ! i # drop (Suc i) hs)"
    using assms(1) by (simp add: id_take_nth_drop [symmetric])
  have csi: "csi = cs @ map (\<lambda>h. (h, p)) (take i hs)"
    using assms(2) by (rule call_each_normal)
  have "call_each beh (take i hs @ (hs ! i # drop (Suc i) hs)) p hp cs =
          (hp', csi @ [(hs ! i, p)], Some e)"
    by (simp add: call_each_append assms(2,3))
  with hs csi assms(1) show ?thesis by (simp add: take_Suc_conv_app_nth)
qed

text \<open>Every emit that an exception leaves has such a first raise.\<close>

lemma call_each_raise_has_first:
  "call_each beh hs p hp cs = (hp', cs', Some e) \<Longrightarrow>
     \<exists>i < length hs. \<exists>hpi csi.
        call_each beh (take i hs) p hp cs = (hpi, csi, None) \<and> beh (hs ! i) p hpi = (hp', Some e)"
proof (induction hs arbitrary: hp cs)
  case Nil
  then show ?case by simp
next
  case (Cons h hs)
  obtain hp1 r1 where b: "beh h p hp = (hp1, r1)" by (cases "beh h p hp")
  show ?case
  proof (cases r1)
    case None
    with Cons.prems b have "call_each beh hs p hp1 (cs @ [(h, p)]) = (hp', cs', Some e)" by simp
    from Cons.IH [OF this] obtain i hpi csi where
      i: "i < length hs" "call_each beh (take i hs) p hp1 (cs @ [(h, p)]) = (hpi, csi, None)"
         "beh (hs ! i) p hpi = (hp', Some e)" by blast
    have "call_each beh (take (Suc i) (h # hs)) p hp cs = (hpi, csi, None)"
      using b None i(2) by simp
    with i(1,3) show ?thesis by (intro exI [of _ "Suc i"]) auto
  next
    case (Some e')
    with Cons.prems b have "hp1 = hp'" "e' = e" by simp_all
    with b Some show ?thesis by (intro exI [of _ 0]) simp
  qed
qed

lemma emit_raise_has_first:
  assumes "emit beh a p hp = (hp', cs, Some e)"
  shows "\<exists>i < length (handlers (signal_at hp a)). \<exists>hpi csi.
           call_each beh (take i (handlers (signal_at hp a))) p hp [] = (hpi, csi, None)
           \<and> beh (handlers (signal_at hp a) ! i) p hpi = (hp', Some e)"
  using assms unfolding emit_def by (rule call_each_raise_has_first)

lemma not_in_take_distinct:
  assumes "distinct hs" and "i < j" and "j < length hs"
  shows "(hs ! j, p) \<notin> set (map (\<lambda>h. (h, p)) (take (Suc i) hs))"
proof
  assume "(hs ! j, p) \<in> set (map (\<lambda>h. (h, p)) (take (Suc i) hs))"
  then have "hs ! j \<in> set (take (Suc i) hs)" by auto
  then obtain k where k: "k < Suc i" "k < length hs" "hs ! k = hs ! j"
    by (auto simp: in_set_conv_nth)
  with assms have "k = j" by (simp add: nth_eq_iff_index_eq)
  with k assms show False by simp
qed

lemma connect_distinct: "distinct (handlers s) \<Longrightarrow> distinct (handlers (connect h s))"
  by (simp add: connect_def)

lemma disconnect_distinct: "distinct (handlers s) \<Longrightarrow> distinct (handlers (disconnect ho s))"
  by (simp add: disconnect_def split: option.splits)


text \<open>
  Claim C7. \<^verbatim>\<open>connect\<close> is idempotent: connecting a callback that is already in the list leaves the
  signal as it is, so connecting twice equals connecting once. \<^verbatim>\<open>disconnect(callback)\<close> removes
  that callback (its one occurrence: the list has no duplicates), \<^verbatim>\<open>disconnect()\<close> clears the
  list, and disconnecting an absent callback leaves the signal as it is. Neither operation has
  an error result.
\<close>

theorem connect_disconnect_laws:
  fixes s :: SimpleSignal
  shows "(h \<in> set (handlers s) \<longrightarrow> connect h s = s)
   \<and> connect h (connect h s) = connect h s
   \<and> handlers (disconnect (Some h) s) = remove1 h (handlers s)
   \<and> (distinct (handlers s) \<longrightarrow> set (handlers (disconnect (Some h) s)) = set (handlers s) - {h})
   \<and> handlers (disconnect None s) = []
   \<and> (h \<notin> set (handlers s) \<longrightarrow> disconnect (Some h) s = s)"
  by (simp add: connect_def disconnect_def remove1_idem)

text \<open>
  The laws at the signal with handlers 1 and 2: reconnecting 2, disconnecting 2, and
  disconnecting the absent 3.
\<close>

theorem connect_disconnect_laws_witness:
  "connect 2 \<lparr>handlers = [1, 2]\<rparr> = \<lparr>handlers = [1, 2]\<rparr>
   \<and> set (handlers (disconnect (Some 2) \<lparr>handlers = [1, 2]\<rparr>)) = {1}
   \<and> disconnect (Some 3) \<lparr>handlers = [1, 2]\<rparr> = \<lparr>handlers = [1, 2]\<rparr>"
  using connect_disconnect_laws [of 2 "\<lparr>handlers = [1, 2]\<rparr>"]
    connect_disconnect_laws [of 3 "\<lparr>handlers = [1, 2]\<rparr>"]
  by auto




text \<open>
  Claim C2, as stated, fails: with handlers 1 and 2 connected and handler 1 raising, the emit
  invokes handler 1 only and the exception leaves \<^verbatim>\<open>emit\<close>.
\<close>

theorem emit_raise_counterexample:
  "handlers (signal_at two_handlers 0) = [1, 2]
   \<and> snd (raising_behaviour 1 () two_handlers) = Some (Exn True ''boom'')
   \<and> emit raising_behaviour 0 () two_handlers = (two_handlers, [(1, ())], Some (Exn True ''boom''))"
  by (simp add: emit_def two_handlers_def raising_behaviour_def)

text \<open>
  Claim C2, amended. Let the handler at position \<open>i\<close> of the snapshot be the first to raise
  in an emit: the handlers before it, called one after the other from the heap the emit
  began in, return and leave the heap \<open>hpi\<close>, and the handler at \<open>i\<close>, called in \<open>hpi\<close>, raises
  \<open>e\<close>. Then the emit has invoked the handlers up to and including position \<open>i\<close>, each once
  with the payload, \<open>e\<close> propagates out of \<^verbatim>\<open>emit\<close>, and no later handler of the snapshot is
  invoked. Every emit that an exception leaves is of this kind (\<open>emit_raise_has_first\<close>).
\<close>

theorem emit_stops_at_first_raise:
  assumes "hs = handlers (signal_at hp a)" and "i < length hs"
    and "call_each beh (take i hs) p hp [] = (hpi, csi, None)"
    and "beh (hs ! i) p hpi = (hp', Some e)"
  shows "emit beh a p hp = (hp', map (\<lambda>h. (h, p)) (take (Suc i) hs), Some e)
       \<and> (distinct hs \<longrightarrow>
            (\<forall>j. i < j \<longrightarrow> j < length hs \<longrightarrow>
               (hs ! j, p) \<notin> set (map (\<lambda>h. (h, p)) (take (Suc i) hs))))"
proof -
  from call_each_raise_at [OF assms(2,3,4)]
  have "emit beh a p hp = (hp', map (\<lambda>h. (h, p)) (take (Suc i) hs), Some e)"
    unfolding emit_def assms(1) [symmetric] by simp
  moreover have "(hs ! j, p) \<notin> set (map (\<lambda>h. (h, p)) (take (Suc i) hs))"
    if "distinct hs" "i < j" "j < length hs" for j
    using that by (rule not_in_take_distinct)
  ultimately show ?thesis by blast
qed

text \<open>
  The amended claim at the signal with handlers 1, 2 and 3, at position 1: handler 1
  returns after disconnecting handler 3, and handler 2 raises because handler 3 is gone.
  Handlers 1 and 2 are invoked, handler 3 is not, and the exception leaves the emit.
\<close>

theorem emit_stops_at_first_raise_witness:
  "handlers (signal_at three_handlers 0) = [1, 2, 3]
   \<and> snd (moody_behaviour 2 () three_handlers) = None
   \<and> fst (snd (emit moody_behaviour 0 () three_handlers)) = [(1, ()), (2, ())]
   \<and> snd (snd (emit moody_behaviour 0 () three_handlers)) = Some (Exn True ''moody'')
   \<and> (3, ()) \<notin> set (fst (snd (emit moody_behaviour 0 () three_handlers)))"
proof -
  let ?hp1 = "sig_disconnect 0 (Some 3) three_handlers"
  have 1: "[1, 2, 3] = handlers (signal_at three_handlers 0)" by (simp add: three_handlers_def)
  have 2: "(1::nat) < length [1::nat, 2, 3]" by simp
  have 3: "call_each moody_behaviour (take 1 [1, 2, 3]) () three_handlers [] = (?hp1, [(1, ())], None)"
    by (simp add: moody_behaviour_def)
  have 4: "moody_behaviour ([1, 2, 3] ! 1) () ?hp1 = (?hp1, Some (Exn True ''moody''))"
    by (simp add: moody_behaviour_def sig_disconnect_def disconnect_def three_handlers_def)
  have 5: "snd (moody_behaviour 2 () three_handlers) = None"
    by (simp add: moody_behaviour_def three_handlers_def)
  from emit_stops_at_first_raise [of "[1, 2, 3]" three_handlers 0 1 moody_behaviour "()" ?hp1
      "[(1, ())]" ?hp1 "Exn True ''moody''", OF 1 2 3 4] 1 5
  show ?thesis by simp
qed





section \<open>Properties of the buses\<close>

lemma disconnect_attrs_at:
  "signal_at (disconnect_attrs sn attrs hp) a =
     (if \<exists>attr. (attr, a) \<in> set attrs \<and> (sn = None \<or> sn = Some attr)
      then disconnect None (signal_at hp a) else signal_at hp a)"
proof (induction attrs arbitrary: hp)
  case Nil
  then show ?case by simp
next
  case (Cons x attrs)
  obtain attr sig where x: "x = (attr, sig)" by (cases x)
  show ?case
    unfolding x by (auto simp: Cons.IH sig_disconnect_def disconnect_def)
qed

lemma disconnect_groups_at:
  "signal_at (disconnect_groups sn gs hp) a =
     (if \<exists>attr. (attr, a) \<in> set (concat (map signal_attrs gs)) \<and> (sn = None \<or> sn = Some attr)
      then disconnect None (signal_at hp a) else signal_at hp a)"
proof (induction gs arbitrary: hp)
  case Nil
  then show ?case by simp
next
  case (Cons g gs)
  show ?case
    by (auto simp: Cons.IH disconnect_attrs_at disconnect_def)
qed

lemma new_SimpleSignal_next: "new_SimpleSignal hp = (a, hp') \<Longrightarrow> a = next_addr hp \<and> next_addr hp' = Suc a"
  by (auto simp: new_SimpleSignal_def)

lemma load_module_addrs:
  assumes "load_module hp0 = (cls, hp1)"
  shows "message (Log_defaults cls) = next_addr hp0"
    and "sequence_activity_changed (Data_defaults cls) = next_addr hp0 + 1"
    and "sequence_data_loaded (Data_defaults cls) = next_addr hp0 + 2"
    and "system_error_occurred (System_defaults cls) = next_addr hp0 + 3"
    and "system_notification_received (System_defaults cls) = next_addr hp0 + 4"
  using assms by (auto simp: load_module_def new_SimpleSignal_def Let_def)

lemma bus_signals_loaded:
  assumes "load_module hp0 = (cls, hp1)"
  shows "bus_signals (fst (SimpleEventBus_init cls hp)) =
     [(''system_error_occurred'', next_addr hp0 + 3),
      (''system_notification_received'', next_addr hp0 + 4),
      (''message'', next_addr hp0),
      (''sequence_activity_changed'', next_addr hp0 + 1),
      (''sequence_data_loaded'', next_addr hp0 + 2)]"
  using load_module_addrs [OF assms]
  by (simp add: bus_signals_def SimpleEventBus_init_def System_init_def Log_init_def Data_init_def Let_def)

lemma qt_disconnect_one:
  "(case conns nm of
      None \<Rightarrow> conns
    | Some c \<Rightarrow>
        (case qt_signal_disconnect c of
           Inr c' \<Rightarrow> conns(nm \<mapsto> c')
         | Inl TypeError \<Rightarrow> conns
         | Inl RuntimeError \<Rightarrow> conns)) =
   (\<lambda>m. if m = nm then map_option (\<lambda>_. []) (conns m) else conns m)"
  by (cases "conns nm") (auto simp: qt_signal_disconnect_def fun_eq_iff)

lemma qt_disconnect_methods_at:
  "qt_disconnect_methods sn ms conns m =
     (if (m, Signal) \<in> set ms \<and> (sn = None \<or> sn = Some m)
      then map_option (\<lambda>_. []) (conns m) else conns m)"
proof (induction ms arbitrary: conns)
  case Nil
  then show ?case by simp
next
  case (Cons x ms)
  obtain nm mt where x: "x = (nm, mt)" by (cases x)
  define conns' where "conns' =
    (if mt \<noteq> Signal then conns
     else if sn = None \<or> sn = Some nm
          then \<lambda>m. if m = nm then map_option (\<lambda>_. []) (conns m) else conns m
          else conns)"
  have step: "conns' m =
    (if mt = Signal \<and> (sn = None \<or> sn = Some nm) \<and> m = nm
     then map_option (\<lambda>_. []) (conns m) else conns m)"
    unfolding conns'_def by simp
  have unf: "qt_disconnect_methods sn (x # ms) conns m = qt_disconnect_methods sn ms conns' m"
    unfolding x qt_disconnect_methods.simps qt_disconnect_one conns'_def ..
  have mem: "(m, Signal) \<in> set (x # ms) \<longleftrightarrow> (m = nm \<and> mt = Signal) \<or> (m, Signal) \<in> set ms"
    unfolding x by auto
  have idem: "map_option (\<lambda>_. []) (map_option (\<lambda>_. []) (conns m)) = map_option (\<lambda>_. ([]::handler list)) (conns m)"
    by (cases "conns m") simp_all
  show ?case
    unfolding unf Cons.IH step mem
    using idem by (cases "sn") auto
qed


lemma qt_disconnect_group_at:
  "connections (qt_disconnect_group sn g) m =
     (if (\<exists>meta. metaObject g = Some meta \<and> (m, Signal) \<in> set meta) \<and> (sn = None \<or> sn = Some m)
      then map_option (\<lambda>_. []) (connections g m) else connections g m)"
  by (cases "metaObject g") (simp_all add: qt_disconnect_group_def qt_disconnect_methods_at)

lemma disconnect_all_at:
  "signal_at (disconnect_all bus sn hp) a =
     (if \<exists>attr. (attr, a) \<in> set (bus_signals bus) \<and> (sn = None \<or> sn = Some attr)
      then disconnect None (signal_at hp a) else signal_at hp a)"
  unfolding disconnect_all_def bus_signals_def by (rule disconnect_groups_at)

lemma distinct_snd_key:
  "distinct (map snd xs) \<Longrightarrow> (k, v) \<in> set xs \<Longrightarrow> (k', v) \<in> set xs \<Longrightarrow> k' = k"
  by (induction xs) force+

lemma bus_signals_names_inj:
  assumes "load_module hp0 = (cls, hp1)" and "SimpleEventBus_init cls hpc = (bus, hpc')"
    and "(attr, a) \<in> set (bus_signals bus)" and "(attr', a) \<in> set (bus_signals bus)"
  shows "attr' = attr"
proof -
  from assms(2) have "bus = fst (SimpleEventBus_init cls hpc)" by simp
  then have "distinct (map snd (bus_signals bus))"
    by (simp add: bus_signals_loaded [OF assms(1)])
  then show ?thesis using assms(3,4) by (rule distinct_snd_key)
qed

text \<open>
  Claim C8. On a bus built by \<^verbatim>\<open>SimpleEventBus()\<close> from the loaded module, \<^verbatim>\<open>disconnect_all(n)\<close> empties
  the handler list of every signal whose attribute name is \<open>n\<close>, in every group, and leaves the
  list of every signal with another name as it was; \<^verbatim>\<open>disconnect_all()\<close> empties every signal of
  every group; signal objects the bus does not reach are untouched. On the Qt backend,
  \<^verbatim>\<open>disconnect_all\<close> acts on each group of \<^verbatim>\<open>_signal_groups\<close>, where a signal of the group's
  meta-object loses all its connections when its name is \<open>n\<close> (or when no name is given) and
  keeps them otherwise.
\<close>

theorem disconnect_all_frame:
  assumes "load_module hp0 = (cls, hp1)" and "SimpleEventBus_init cls hpc = (bus, hpc')"
  shows "(\<forall>(attr, a) \<in> set (bus_signals bus).
            handlers (signal_at (disconnect_all bus (Some n) hp) a) =
              (if attr = n then [] else handlers (signal_at hp a)))
       \<and> (\<forall>(attr, a) \<in> set (bus_signals bus). handlers (signal_at (disconnect_all bus None hp) a) = [])
       \<and> (\<forall>a. a \<notin> snd ` set (bus_signals bus) \<longrightarrow> signal_at (disconnect_all bus sn hp) a = signal_at hp a)
       \<and> qt_signal_groups (qt_disconnect_all b sn) = map (qt_disconnect_group sn) (qt_signal_groups b)
       \<and> (\<forall>g \<in> set (qt_signal_groups b). \<forall>meta m. metaObject g = Some meta \<longrightarrow> (m, Signal) \<in> set meta \<longrightarrow>
             connections (qt_disconnect_group (Some n) g) m =
               (if m = n then map_option (\<lambda>_. []) (connections g m) else connections g m)
             \<and> connections (qt_disconnect_group None g) m = map_option (\<lambda>_. []) (connections g m))"
proof (intro conjI)
  have 1: "handlers (signal_at (disconnect_all bus (Some n) hp) a) =
              (if attr = n then [] else handlers (signal_at hp a))"
    if "(attr, a) \<in> set (bus_signals bus)" for attr a
  proof (cases "attr = n")
    case True
    with that show ?thesis by (auto simp: disconnect_all_at disconnect_def)
  next
    case False
    have ne: "\<not> (\<exists>attr'. (attr', a) \<in> set (bus_signals bus) \<and> (Some n = None \<or> Some n = Some attr'))"
      using bus_signals_names_inj [OF assms that] False by auto
    have "signal_at (disconnect_all bus (Some n) hp) a = signal_at hp a"
      unfolding disconnect_all_at using ne by (rule if_not_P)
    with False show ?thesis by simp
  qed
  show "\<forall>(attr, a) \<in> set (bus_signals bus).
            handlers (signal_at (disconnect_all bus (Some n) hp) a) =
              (if attr = n then [] else handlers (signal_at hp a))"
    using 1 by fast
  have 2: "handlers (signal_at (disconnect_all bus None hp) a) = []"
    if "(attr, a) \<in> set (bus_signals bus)" for attr a
    using that by (auto simp: disconnect_all_at disconnect_def)
  show "\<forall>(attr, a) \<in> set (bus_signals bus). handlers (signal_at (disconnect_all bus None hp) a) = []"
    using 2 by fast
  have 3: "signal_at (disconnect_all bus sn hp) a = signal_at hp a"
    if "a \<notin> snd ` set (bus_signals bus)" for a
  proof -
    from that have ne: "\<not> (\<exists>attr. (attr, a) \<in> set (bus_signals bus) \<and> (sn = None \<or> sn = Some attr))"
      by force
    show ?thesis unfolding disconnect_all_at using ne by (rule if_not_P)
  qed
  show "\<forall>a. a \<notin> snd ` set (bus_signals bus) \<longrightarrow> signal_at (disconnect_all bus sn hp) a = signal_at hp a"
    using 3 by fast
  show "qt_signal_groups (qt_disconnect_all b sn) = map (qt_disconnect_group sn) (qt_signal_groups b)"
    by (simp add: qt_signal_groups_def qt_disconnect_all_def)
  have 5: "connections (qt_disconnect_group (Some n) g) m =
               (if m = n then map_option (\<lambda>_. []) (connections g m) else connections g m)
             \<and> connections (qt_disconnect_group None g) m = map_option (\<lambda>_. []) (connections g m)"
    if "metaObject g = Some meta" "(m, Signal) \<in> set meta" for g meta m
    using that by (auto simp: qt_disconnect_group_at)
  show "\<forall>g \<in> set (qt_signal_groups b). \<forall>meta m. metaObject g = Some meta \<longrightarrow> (m, Signal) \<in> set meta \<longrightarrow>
             connections (qt_disconnect_group (Some n) g) m =
               (if m = n then map_option (\<lambda>_. []) (connections g m) else connections g m)
             \<and> connections (qt_disconnect_group None g) m = map_option (\<lambda>_. []) (connections g m)"
    using 5 by fast
qed

lemma loaded_module: "load_module empty_heap = (loaded_classes, loaded_heap)"
  by (simp add: loaded_classes_def loaded_heap_def)

lemma first_bus_init: "SimpleEventBus_init loaded_classes loaded_heap = (first_bus, loaded_heap)"
  by (simp add: first_bus_def SimpleEventBus_init_def Let_def)


lemma first_bus_signals:
  "bus_signals first_bus =
     [(''system_error_occurred'', 3), (''system_notification_received'', 4), (''message'', 0),
      (''sequence_activity_changed'', 1), (''sequence_data_loaded'', 2)]"
  using bus_signals_loaded [OF loaded_module, of loaded_heap]
  by (simp add: first_bus_def empty_heap_def)

lemma first_bus_addrs:
  "message (log first_bus) = 0" "system_error_occurred (system first_bus) = 3"
  using load_module_addrs [OF loaded_module]
  by (simp_all add: first_bus_def SimpleEventBus_init_def Let_def Log_init_def System_init_def
      empty_heap_def)

lemma busy_heap_handlers:
  "handlers (signal_at busy_heap 0) = [7]" "handlers (signal_at busy_heap 3) = [8]"
  by (simp_all add: busy_heap_def first_bus_addrs sig_connect_def connect_def loaded_heap_def
      load_module_def new_SimpleSignal_def empty_heap_def SimpleSignal_init_def Let_def)

text \<open>
  The inline bus with a handler on \<^verbatim>\<open>log.message\<close> and one on \<^verbatim>\<open>system.system_error_occurred\<close>, and
  a Qt log group with listeners on \<^verbatim>\<open>message\<close> and \<^verbatim>\<open>destroyed\<close>: \<^verbatim>\<open>disconnect_all("message")\<close> clears
  the first and keeps the second.
\<close>

theorem disconnect_all_frame_witness:
  "handlers (signal_at busy_heap 0) = [7] \<and> handlers (signal_at busy_heap 3) = [8]
   \<and> handlers (signal_at (disconnect_all first_bus (Some ''message'') busy_heap) 0) = []
   \<and> handlers (signal_at (disconnect_all first_bus (Some ''message'') busy_heap) 3) = [8]
   \<and> handlers (signal_at (disconnect_all first_bus None busy_heap) 3) = []
   \<and> connections (qt_disconnect_group (Some ''message'') sample_log_group) ''message'' = Some []
   \<and> connections (qt_disconnect_group (Some ''message'') sample_log_group) ''destroyed'' = Some [6]
   \<and> connections (qt_disconnect_group None sample_log_group) ''destroyed'' = Some []"
proof -
  note T = disconnect_all_frame [OF loaded_module first_bus_init,
      of "''message''" busy_heap None sample_backend]
  have m0: "(''message'', 0) \<in> set (bus_signals first_bus)"
    and m3: "(''system_error_occurred'', 3) \<in> set (bus_signals first_bus)"
    by (simp_all add: first_bus_signals)
  from T have a: "\<forall>(attr, a) \<in> set (bus_signals first_bus).
      handlers (signal_at (disconnect_all first_bus (Some ''message'') busy_heap) a) =
        (if attr = ''message'' then [] else handlers (signal_at busy_heap a))" by (rule conjunct1)
  from T have b: "\<forall>(attr, a) \<in> set (bus_signals first_bus).
      handlers (signal_at (disconnect_all first_bus None busy_heap) a) = []"
    by (rule conjunct1 [OF conjunct2])
  from T have q: "\<forall>g \<in> set (qt_signal_groups sample_backend). \<forall>meta m.
      metaObject g = Some meta \<longrightarrow> (m, Signal) \<in> set meta \<longrightarrow>
        connections (qt_disconnect_group (Some ''message'') g) m =
          (if m = ''message'' then map_option (\<lambda>_. []) (connections g m) else connections g m)
        \<and> connections (qt_disconnect_group None g) m = map_option (\<lambda>_. []) (connections g m)"
    by (rule conjunct2 [OF conjunct2 [OF conjunct2 [OF conjunct2]]])
  from bspec [OF a m0] have 1: "handlers (signal_at (disconnect_all first_bus (Some ''message'') busy_heap) 0) = []"
    by simp
  from bspec [OF a m3] have 2: "handlers (signal_at (disconnect_all first_bus (Some ''message'') busy_heap) 3) = [8]"
    by (simp add: busy_heap_handlers)
  from bspec [OF b m3] have 3: "handlers (signal_at (disconnect_all first_bus None busy_heap) 3) = []"
    by simp
  have g: "sample_log_group \<in> set (qt_signal_groups sample_backend)"
    by (simp add: qt_signal_groups_def sample_backend_def)
  have meta: "metaObject sample_log_group =
      Some [(''destroyed'', Signal), (''deleteLater'', Slot), (''message'', Signal)]"
    by (simp add: sample_log_group_def)
  have cm: "connections sample_log_group ''message'' = Some [5]"
    and cd: "connections sample_log_group ''destroyed'' = Some [6]"
    by (simp_all add: sample_log_group_def)
  from bspec [OF q g, rule_format, OF meta, of "''message''"] cm
  have 4: "connections (qt_disconnect_group (Some ''message'') sample_log_group) ''message'' = Some []"
    by simp
  from bspec [OF q g, rule_format, OF meta, of "''destroyed''"] cd
  have 5: "connections (qt_disconnect_group (Some ''message'') sample_log_group) ''destroyed'' = Some [6]"
    and 6: "connections (qt_disconnect_group None sample_log_group) ''destroyed'' = Some []"
    by simp_all
  from 1 2 3 4 5 6 busy_heap_handlers show ?thesis by simp
qed







section \<open>Properties of the service and the worker\<close>

lemma log_message_simps [simp]:
  "active_workers (log_message m l s) = active_workers s"
  "thread_at (log_message m l s) = thread_at s"
  "next_thread (log_message m l s) = next_thread s"
  "worker_at (log_message m l s) = worker_at s"
  "thread_calls (log_message m l s) = thread_calls s"
  "emitted (log_message m l s) = emitted s"
  "bus_log (log_message m l s) = bus_log s @ [(l, m)]"
  by (simp_all add: log_message_def)

lemma registered_Some [simp]: "k \<noteq> [] \<Longrightarrow> registered (Some k) s = active_workers s k"
  by (simp add: registered_def)

lemma registered_log [simp]: "registered wi (log_message m l s) = registered wi s"
  by (simp add: registered_def split: option.splits)

lemma isRunning_log [simp]: "QThread_isRunning t (log_message m l s) = QThread_isRunning t s"
  by (simp add: QThread_isRunning_def)

lemma isRunning_True: "QThread_isRunning t s = Inr True \<longleftrightarrow> \<not> deleted (thread_at s t) \<and> running (thread_at s t)"
  by (simp add: QThread_isRunning_def)

lemma setup_rejected:
  assumes "k \<noteq> []" "active_workers s k = Some (t, w0)" "QThread_isRunning t s = Inr True"
  shows "setup_worker_thread w (Some k) False s = (Inr None, log_warning (Already_running (Some k)) s)"
  using assms by (simp add: setup_worker_thread_def)

text \<open>
  Claim C3. When the registry holds, under the key \<open>k\<close>, a thread that reports running,
  \<^verbatim>\<open>start_worker(worker, k, force_interrupt=False)\<close> returns \<^verbatim>\<open>None\<close>; the registry is as before, no
  call is made on any thread and no thread changes, none is created, and the new worker is
  neither moved, wired nor started. Only a warning is logged.
\<close>

theorem start_rejected_when_running:
  assumes "k \<noteq> []" and "active_workers s k = Some (t, w0)" and "QThread_isRunning t s = Inr True"
  shows "fst (start_worker w (Some k) False s) = Inr None
       \<and> active_workers (snd (start_worker w (Some k) False s)) = active_workers s
       \<and> thread_at (snd (start_worker w (Some k) False s)) = thread_at s
       \<and> thread_calls (snd (start_worker w (Some k) False s)) = thread_calls s
       \<and> worker_at (snd (start_worker w (Some k) False s)) = worker_at s
       \<and> next_thread (snd (start_worker w (Some k) False s)) = next_thread s
       \<and> emitted (snd (start_worker w (Some k) False s)) = emitted s"
  by (simp add: start_worker_def setup_rejected [OF assms] log_warning_def)

lemma stop_thread_graceful:
  assumes "QThread_isRunning t s = Inr True"
  shows "thread_calls (stop_thread (Some t) wi False s) =
           thread_calls s @ [(t, RequestInterruption), (t, Quit), (t, Wait (Some 1000))]"
    and "active_workers (stop_thread (Some t) wi False s) = active_workers s"
    and "next_thread (stop_thread (Some t) wi False s) = next_thread s"
  using assms
  by (simp_all add: stop_thread_def QThread_wait_def QThread_quit_def QThread_requestInterruption_def
      QThread_isRunning_def log_info_def log_warning_def Let_def split: if_splits)

lemma remove_entry_simps [simp]:
  "thread_calls (remove_entry wi s) = thread_calls s"
  "next_thread (remove_entry wi s) = next_thread s"
  "thread_at (remove_entry wi s) = thread_at s"
  "worker_at (remove_entry wi s) = worker_at s"
  "emitted (remove_entry wi s) = emitted s"
  by (simp_all add: remove_entry_def log_info_def split: option.splits)

lemma remove_entry_registry:
  "active_workers (remove_entry wi s) =
     (case wi of None \<Rightarrow> active_workers s
      | Some k \<Rightarrow> if k \<noteq> [] then (active_workers s)(k := None) else active_workers s)"
proof (cases wi)
  case None
  then show ?thesis by (simp add: remove_entry_def)
next
  case (Some k)
  show ?thesis
  proof (cases "active_workers s k")
    case None
    then have "(active_workers s)(k := None) = active_workers s" by (simp add: fun_eq_iff)
    with None Some show ?thesis by (simp add: remove_entry_def)
  next
    case (Some e)
    with \<open>wi = Some k\<close> show ?thesis by (simp add: remove_entry_def log_info_def)
  qed
qed

lemma cleanup_by_id_graceful:
  assumes "k \<noteq> []" "active_workers s k = Some (t, w0)" "QThread_isRunning t s = Inr True"
  shows "thread_calls (cleanup_worker None None (Some k) False s) =
           thread_calls s @ [(t, RequestInterruption), (t, Quit), (t, Wait (Some 1000))]"
    and "next_thread (cleanup_worker None None (Some k) False s) = next_thread s"
    and "active_workers (cleanup_worker None None (Some k) False s) = (active_workers s)(k := None)"
  using assms
  by (simp_all add: cleanup_worker_def stop_thread_graceful remove_entry_registry)

lemma wire_worker_simps:
  "fst (wire_worker w wi s) = (next_thread s, w)"
  "thread_calls (snd (wire_worker w wi s)) = thread_calls s"
  "next_thread (snd (wire_worker w wi s)) = Suc (next_thread s)"
  "emitted (snd (wire_worker w wi s)) = emitted s"
  by (simp_all add: wire_worker_def new_QThread_def moveToThread_def connect_error_slot_def
      connect_finished_slot_def connect_thread_finished_def log_info_def Let_def
      split: option.splits)

lemma wire_worker_registry:
  "k \<noteq> [] \<Longrightarrow> active_workers (snd (wire_worker w (Some k) s)) = (active_workers s)(k \<mapsto> (next_thread s, w))"
  by (simp add: wire_worker_def new_QThread_def moveToThread_def connect_error_slot_def
      connect_finished_slot_def connect_thread_finished_def log_info_def Let_def)

lemmas service_defs =
  start_worker_def setup_worker_thread_def wire_worker_def cleanup_worker_def stop_thread_def
  remove_entry_def registered_def new_QThread_def moveToThread_def connect_error_slot_def
  connect_finished_slot_def connect_thread_finished_def connect_thread_started_def
  QThread_isRunning_def QThread_requestInterruption_def QThread_quit_def QThread_wait_def
  QThread_terminate_def QThread_start_def log_info_def log_warning_def log_error_def
  log_message_def Let_def

text \<open>
  Claim C4. When the registry holds, under the key \<open>k\<close>, a thread \<open>t\<close> that reports running,
  \<^verbatim>\<open>start_worker(worker, k, force_interrupt=True)\<close> makes exactly these calls: \<^verbatim>\<open>requestInterruption\<close>,
  \<^verbatim>\<open>quit\<close> and \<^verbatim>\<open>wait(1000)\<close> on \<open>t\<close>, then \<^verbatim>\<open>start\<close> on the new thread. \<^verbatim>\<open>terminate\<close> is not called on
  \<open>t\<close>, whether or not \<open>t\<close> stops within the wait (\<open>responds\<close> is arbitrary), and the new worker
  is registered under \<open>k\<close>.
\<close>

theorem force_interrupt_is_graceful:
  assumes "k \<noteq> []" and "active_workers s k = Some (t, w0)" and "QThread_isRunning t s = Inr True"
  shows "fst (start_worker w (Some k) True s) = Inr (Some (next_thread s))
       \<and> thread_calls (snd (start_worker w (Some k) True s)) =
           thread_calls s @
             [(t, RequestInterruption), (t, Quit), (t, Wait (Some 1000)), (next_thread s, Start)]
       \<and> (t, Terminate) \<notin> set (drop (length (thread_calls s))
             (thread_calls (snd (start_worker w (Some k) True s))))
       \<and> active_workers (snd (start_worker w (Some k) True s)) k = Some (next_thread s, w)"
proof -
  let ?s0 = "log_warning (Interrupting_existing (Some k)) s"
  let ?s1 = "cleanup_worker None None (Some k) False ?s0"
  have a: "active_workers ?s0 k = Some (t, w0)" "QThread_isRunning t ?s0 = Inr True"
    using assms by (simp_all add: log_warning_def)
  have c: "thread_calls ?s1 =
        thread_calls s @ [(t, RequestInterruption), (t, Quit), (t, Wait (Some 1000))]"
      "next_thread ?s1 = next_thread s"
      "active_workers ?s1 = (active_workers s)(k := None)"
    using cleanup_by_id_graceful [OF assms(1) a] by (simp_all add: log_warning_def)
  have stp: "setup_worker_thread w (Some k) True s =
      (Inr (Some (fst (wire_worker w (Some k) ?s1))), snd (wire_worker w (Some k) ?s1))"
    using assms by (simp add: setup_worker_thread_def split_beta)
  obtain s2 where s2: "s2 = snd (wire_worker w (Some k) ?s1)" by simp
  have w1: "fst (wire_worker w (Some k) ?s1) = (next_thread s, w)"
    by (simp add: wire_worker_simps c)
  have calls2: "thread_calls s2 =
      thread_calls s @ [(t, RequestInterruption), (t, Quit), (t, Wait (Some 1000))]"
    unfolding s2 by (simp add: wire_worker_simps c)
  have reg2: "active_workers s2 k = Some (next_thread s, w)"
    unfolding s2 by (simp add: wire_worker_registry [OF assms(1)] c)
  have start: "start_worker w (Some k) True s =
      (Inr (Some (next_thread s)),
       QThread_start (next_thread s)
         (if has_run (worker_at s2 w)
          then connect_thread_started (next_thread s) (Worker_run_slot w) s2
          else log_warning (No_run_method (Some k)) s2))"
    by (simp add: start_worker_def stp w1 s2 [symmetric] Let_def)
  have calls: "thread_calls (snd (start_worker w (Some k) True s)) =
      thread_calls s @
        [(t, RequestInterruption), (t, Quit), (t, Wait (Some 1000)), (next_thread s, Start)]"
    by (simp add: start calls2 QThread_start_def connect_thread_started_def log_warning_def)
  have reg: "active_workers (snd (start_worker w (Some k) True s)) k = Some (next_thread s, w)"
    by (simp add: start reg2 QThread_start_def connect_thread_started_def log_warning_def)
  from start calls reg show ?thesis by simp
qed

lemma scan_started_facts:
  "active_workers scan_started ''scan'' = Some (3, 7)"
  "QThread_isRunning 3 scan_started = Inr True"
  "next_thread scan_started = 4"
  "thread_calls scan_started = [(3, Start)]"
  "emitted scan_started = []"
  "error_slots (worker_at scan_started 7) = [Log_error_slot (Some ''scan''), Cleanup_by_id_slot (Some ''scan'')]"
  "responds (thread_at scan_started 3) = False"
  by (simp_all add: scan_started_def initial_state_def base_worker_def idle_thread_def service_defs)

text \<open>
  Worker 7 runs under \<^verbatim>\<open>"scan"\<close> on thread 3; starting worker 8 under the same key without
  \<^verbatim>\<open>force_interrupt\<close> is rejected and leaves the entry and the calls as they were.
\<close>

theorem start_rejected_when_running_witness:
  "active_workers scan_started ''scan'' = Some (3, 7)
   \<and> QThread_isRunning 3 scan_started = Inr True
   \<and> fst (start_worker 8 (Some ''scan'') False scan_started) = Inr None
   \<and> active_workers (snd (start_worker 8 (Some ''scan'') False scan_started)) ''scan'' = Some (3, 7)
   \<and> thread_calls (snd (start_worker 8 (Some ''scan'') False scan_started)) = [(3, Start)]"
proof -
  have k: "''scan'' \<noteq> []" by simp
  from start_rejected_when_running [OF k scan_started_facts(1,2), of 8] scan_started_facts
  show ?thesis by simp
qed

text \<open>
  Thread 3 does not stop within the bounded wait; worker 8 replaces worker 7 under \<^verbatim>\<open>"scan"\<close>
  all the same, with the three graceful calls on thread 3 and no \<^verbatim>\<open>terminate\<close>.
\<close>

theorem force_interrupt_is_graceful_witness:
  "responds (thread_at scan_started 3) = False
   \<and> fst (start_worker 8 (Some ''scan'') True scan_started) = Inr (Some 4)
   \<and> thread_calls (snd (start_worker 8 (Some ''scan'') True scan_started)) =
       [(3, Start), (3, RequestInterruption), (3, Quit), (3, Wait (Some 1000)), (4, Start)]
   \<and> active_workers (snd (start_worker 8 (Some ''scan'') True scan_started)) ''scan'' = Some (4, 8)"
proof -
  have k: "''scan'' \<noteq> []" by simp
  from force_interrupt_is_graceful [OF k scan_started_facts(1,2), of 8] scan_started_facts
  show ?thesis by simp
qed

lemma stop_thread_frame [simp]:
  "active_workers (stop_thread tt wi f s) = active_workers s"
  "worker_at (stop_thread tt wi f s) = worker_at s"
  "emitted (stop_thread tt wi f s) = emitted s"
  "next_thread (stop_thread tt wi f s) = next_thread s"
  by (simp_all add: stop_thread_def QThread_wait_def QThread_quit_def QThread_requestInterruption_def
      QThread_terminate_def log_info_def log_warning_def Let_def
      split: option.splits sum.splits bool.splits prod.splits)

lemma cleanup_worker_frame [simp]:
  "worker_at (cleanup_worker th wo wi f s) = worker_at s"
  "emitted (cleanup_worker th wo wi f s) = emitted s"
  "next_thread (cleanup_worker th wo wi f s) = next_thread s"
  by (simp_all add: cleanup_worker_def log_warning_def Let_def split: option.splits prod.splits)

lemma cleanup_worker_keeps_absent:
  "active_workers s k = None \<Longrightarrow> active_workers (cleanup_worker th wo wi f s) k = None"
  by (simp add: cleanup_worker_def log_warning_def remove_entry_registry Let_def
      split: option.splits prod.splits)

lemma cleanup_by_id_removes:
  assumes "k \<noteq> []"
  shows "active_workers (cleanup_worker None None (Some k) False s) k = None"
proof (cases "active_workers s k")
  case None
  then show ?thesis by (rule cleanup_worker_keeps_absent)
next
  case (Some e)
  obtain st sw where e: "e = (st, sw)" by (cases e)
  from assms Some e show ?thesis
    by (simp add: cleanup_worker_def remove_entry_registry)
qed

text \<open>
  The cleanup that the finished signal triggers names its thread. When the registry holds
  another thread under the key, it logs a warning and changes nothing else.
\<close>

lemma stale_finished_cleanup_is_noop:
  assumes "k \<noteq> []" and "active_workers s k = Some (t_new, w_new)" and "t_old \<noteq> t_new"
  shows "cleanup_worker (Some t_old) wo (Some k) force s = log_warning (Cleanup_skipped (Some k)) s"
  using assms by (simp add: cleanup_worker_def)

lemma invoke_slot_emitted [simp]: "emitted (invoke_slot sl msg s) = emitted s"
  by (cases sl) (simp_all add: log_error_def QThread_quit_def)

lemma invoke_slots_emitted [simp]: "emitted (invoke_slots sls msg s) = emitted s"
  by (induction sls arbitrary: s) simp_all

lemma invoke_slot_keeps_absent:
  "active_workers s k = None \<Longrightarrow> active_workers (invoke_slot sl msg s) k = None"
  by (cases sl) (simp_all add: log_error_def QThread_quit_def cleanup_worker_keeps_absent)

lemma invoke_slots_keeps_absent:
  "active_workers s k = None \<Longrightarrow> active_workers (invoke_slots sls msg s) k = None"
  by (induction sls arbitrary: s) (simp_all add: invoke_slot_keeps_absent)

lemma invoke_slots_removes:
  "Cleanup_by_id_slot (Some k) \<in> set sls \<Longrightarrow> k \<noteq> [] \<Longrightarrow>
     active_workers (invoke_slots sls msg s) k = None"
proof (induction sls arbitrary: s)
  case Nil
  then show ?case by simp
next
  case (Cons sl sls)
  show ?case
  proof (cases "sl = Cleanup_by_id_slot (Some k)")
    case True
    then have "active_workers (invoke_slot sl msg s) k = None"
      using Cons.prems(2) by (simp add: cleanup_by_id_removes)
    then show ?thesis by (simp add: invoke_slots_keeps_absent)
  next
    case False
    with Cons.prems have "Cleanup_by_id_slot (Some k) \<in> set sls" by simp
    from Cons.IH [OF this Cons.prems(2)] show ?thesis by simp
  qed
qed

lemma wire_worker_error_slots:
  "has_worker_error_occurred (worker_at s w) \<Longrightarrow>
     error_slots (worker_at (snd (wire_worker w wi s)) w) =
       error_slots (worker_at s w) @ [Log_error_slot wi, Cleanup_by_id_slot wi]"
  by (simp add: wire_worker_def new_QThread_def moveToThread_def connect_error_slot_def
      connect_finished_slot_def connect_thread_finished_def log_info_def Let_def
      split: option.splits)

lemma setup_wires_error_cleanup:
  assumes "has_worker_error_occurred (worker_at s w)"
    and "setup_worker_thread w wi fi s = (Inr (Some r), s')"
  shows "error_slots (worker_at s' w) = error_slots (worker_at s w) @ [Log_error_slot wi, Cleanup_by_id_slot wi]"
proof -
  have *: "error_slots (worker_at (snd (wire_worker w wi s0)) w) =
             error_slots (worker_at s w) @ [Log_error_slot wi, Cleanup_by_id_slot wi]"
    if "worker_at s0 = worker_at s" for s0
    using wire_worker_error_slots [of s0 w wi] assms(1) that by simp
  from assms(2) show ?thesis
    by (auto simp: setup_worker_thread_def log_warning_def split_beta *
        split: option.splits sum.splits bool.splits if_splits prod.splits)
qed

lemma start_wires_error_cleanup:
  assumes "has_worker_error_occurred (worker_at s w)"
    and "start_worker w wi fi s = (Inr (Some t), s1)"
  shows "error_slots (worker_at s1 w) = error_slots (worker_at s w) @ [Log_error_slot wi, Cleanup_by_id_slot wi]"
proof -
  obtain res s' where su: "setup_worker_thread w wi fi s = (res, s')"
    by (cases "setup_worker_thread w wi fi s")
  with assms(2) obtain th w' where res: "res = Inr (Some (th, w'))"
    by (auto simp: start_worker_def split: sum.splits option.splits)
  from assms(2) su res have "worker_at s1 = worker_at s'"
    by (auto simp: start_worker_def QThread_start_def connect_thread_started_def log_warning_def
        Let_def split: if_splits)
  with setup_wires_error_cleanup [OF assms(1) su [unfolded res]] show ?thesis by simp
qed

text \<open>
  Claim C5, amended. A worker with the error signal is started under a key \<open>k\<close>, and its body
  raises an \<^verbatim>\<open>Exception\<close> whose text is \<open>m\<close>. Then \<^verbatim>\<open>run\<close> returns without an exception, the worker
  has emitted \<^verbatim>\<open>worker_error_occurred\<close> exactly once, carrying \<open>m\<close> (the text of the exception,
  which may be empty), it has not emitted \<^verbatim>\<open>worker_task_finished\<close>, and \<open>k\<close> is no longer in the
  registry.
\<close>

theorem failing_worker_signals_once:
  assumes "k \<noteq> []" and "has_worker_error_occurred (worker_at s w)"
    and "start_worker w (Some k) fi s = (Inr (Some t), s1)"
  shows "fst (run (Raises (Exn True m)) w s1) = None
       \<and> emitted (snd (run (Raises (Exn True m)) w s1)) = emitted s1 @ [(w, Failed m)]
       \<and> active_workers (snd (run (Raises (Exn True m)) w s1)) k = None"
proof -
  have mem: "Cleanup_by_id_slot (Some k) \<in> set (error_slots (worker_at s1 w))"
    by (simp add: start_wires_error_cleanup [OF assms(2,3)])
  have r: "run (Raises (Exn True m)) w s1 = (None, emit_error w m s1)"
    by (simp add: run_def)
  have e: "emitted (emit_error w m s1) = emitted s1 @ [(w, Failed m)]"
    by (simp add: emit_error_def)
  have a: "active_workers (emit_error w m s1) k = None"
    unfolding emit_error_def
    using invoke_slots_removes [of k "error_slots (worker_at s1 w)"] mem assms(1) by simp
  from r e a show ?thesis by simp
qed

lemma scan_started_start:
  "start_worker 7 (Some ''scan'') False initial_state = (Inr (Some 3), scan_started)"
proof -
  have "fst (start_worker 7 (Some ''scan'') False initial_state) = Inr (Some 3)"
    by (simp add: initial_state_def base_worker_def idle_thread_def service_defs)
  then show ?thesis by (simp add: scan_started_def prod_eq_iff)
qed

text \<open>
  Worker 7, started under \<^verbatim>\<open>"scan"\<close>, raises an exception with the text \<^verbatim>\<open>boom\<close>.
\<close>

theorem failing_worker_signals_once_witness:
  "fst (run (Raises (Exn True ''boom'')) 7 scan_started) = None
   \<and> emitted (snd (run (Raises (Exn True ''boom'')) 7 scan_started)) = [(7, Failed ''boom'')]
   \<and> active_workers (snd (run (Raises (Exn True ''boom'')) 7 scan_started)) ''scan'' = None"
proof -
  have k: "''scan'' \<noteq> []" by simp
  have h: "has_worker_error_occurred (worker_at initial_state 7)"
    by (simp add: initial_state_def base_worker_def)
  from failing_worker_signals_once [OF k h scan_started_start, of "''boom''"] scan_started_facts(5)
  show ?thesis by simp
qed

text \<open>
  Claim C5, as stated, fails: the body of worker 7, started under \<^verbatim>\<open>"scan"\<close>, raises an exception
  without a message (\<^verbatim>\<open>raise ValueError()\<close>), and the failed signal carries the empty string.
\<close>

theorem empty_message_counterexample:
  "start_worker 7 (Some ''scan'') False initial_state = (Inr (Some 3), scan_started)
   \<and> run (Raises (Exn True [])) 7 scan_started =
       (None, snd (run (Raises (Exn True [])) 7 scan_started))
   \<and> emitted (snd (run (Raises (Exn True [])) 7 scan_started)) = [(7, Failed [])]"
  by (simp add: scan_started_start run_def emit_error_def scan_started_facts log_error_def)

lemma scan_replaced_facts:
  "active_workers scan_replaced ''scan'' = Some (4, 8)"
  "QThread_isRunning 4 scan_replaced = Inr True"
  "thread_calls scan_replaced =
     [(3, Start), (3, RequestInterruption), (3, Quit), (3, Wait (Some 1000)), (4, Start)]"
  "error_slots (worker_at scan_replaced 7) =
     [Log_error_slot (Some ''scan''), Cleanup_by_id_slot (Some ''scan'')]"
  "finished_slots_of (worker_at scan_replaced 7) =
     [Thread_quit_slot 3, Worker_deleteLater_slot 7, Cleanup_slot 3 7 (Some ''scan'')]"
  "deleted (thread_at scan_replaced 3) = False"
  "emitted scan_replaced = []"
  by (simp_all add: scan_replaced_def scan_started_def initial_state_def base_worker_def
      idle_thread_def service_defs)

text \<open>
  After worker 8 has replaced worker 7 under \<^verbatim>\<open>"scan"\<close>, the finished signal of worker 7 leaves the
  entry of worker 8 in place and makes no call on thread 4.
\<close>

lemma stale_finished_signal_keeps_replacement:
  "active_workers (snd (run Returns 7 scan_replaced)) ''scan'' = Some (4, 8)
   \<and> thread_calls (snd (run Returns 7 scan_replaced)) = thread_calls scan_replaced @ [(3, Quit)]"
  by (simp add: run_def emit_finished_def scan_replaced_facts QThread_quit_def
      stale_finished_cleanup_is_noop [where t_new = 4 and w_new = 8] log_warning_def)

text \<open>
  Claim C1 at the failure signal. The lambda connected to \<^verbatim>\<open>worker_error_occurred\<close> calls
  \<^verbatim>\<open>_cleanup_worker(worker_id=worker_id)\<close> without the thread, so the cleanup takes the stored
  thread as its target and finds no mismatch: after worker 8 has replaced worker 7 under
  \<^verbatim>\<open>"scan"\<close>, the failure signal of worker 7 asks thread 4, the replacement's, to stop and removes
  the replacement's entry from the registry.
\<close>

theorem stale_failure_signal_removes_replacement:
  "active_workers scan_replaced ''scan'' = Some (4, 8)
   \<and> error_slots (worker_at scan_replaced 7) =
       [Log_error_slot (Some ''scan''), Cleanup_by_id_slot (Some ''scan'')]
   \<and> active_workers (snd (run (Raises (Exn True ''late'')) 7 scan_replaced)) ''scan'' = None
   \<and> thread_calls (snd (run (Raises (Exn True ''late'')) 7 scan_replaced)) =
       thread_calls scan_replaced @ [(4, RequestInterruption), (4, Quit), (4, Wait (Some 1000))]"
proof -
  let ?s = "log_error (Worker_error (Some ''scan'') ''late'')
              (scan_replaced\<lparr>emitted := emitted scan_replaced @ [(7, Failed ''late'')]\<rparr>)"
  have k: "''scan'' \<noteq> []" by simp
  have a: "active_workers ?s ''scan'' = Some (4, 8)" "QThread_isRunning 4 ?s = Inr True"
    using scan_replaced_facts(1,2) by (simp_all add: log_error_def isRunning_True)
  have c: "thread_calls ?s = thread_calls scan_replaced"
    by (simp add: log_error_def)
  have r: "snd (run (Raises (Exn True ''late'')) 7 scan_replaced) =
             cleanup_worker None None (Some ''scan'') False ?s"
    by (simp add: run_def emit_error_def scan_replaced_facts(4))
  from cleanup_by_id_graceful [OF k a] c r scan_replaced_facts(1,4) show ?thesis by simp
qed

text \<open>
  Keys are never empty: registration happens under a true \<^verbatim>\<open>worker_id\<close> only, and no operation
  adds an entry otherwise.
\<close>

lemma wire_worker_registry_any:
  "active_workers (snd (wire_worker w wi s)) =
     (case wi of
        None \<Rightarrow> active_workers s
      | Some k \<Rightarrow> if k = [] then active_workers s else (active_workers s)(k \<mapsto> (next_thread s, w)))"
  by (simp add: wire_worker_def new_QThread_def moveToThread_def connect_error_slot_def
      connect_finished_slot_def connect_thread_finished_def log_info_def Let_def
      split: option.splits)

lemma wire_worker_no_empty_key:
  "active_workers s [] = None \<Longrightarrow> active_workers (snd (wire_worker w wi s)) [] = None"
  by (simp add: wire_worker_registry_any split: option.splits)

lemma start_worker_no_empty_key:
  assumes "active_workers s [] = None"
  shows "active_workers (snd (start_worker w wi fi s)) [] = None"
proof -
  have *: "active_workers (snd (setup_worker_thread w wi fi s)) [] = None"
    using assms
    by (auto simp: setup_worker_thread_def split_beta log_warning_def wire_worker_no_empty_key
        cleanup_worker_keeps_absent split: option.splits sum.splits bool.splits)
  show ?thesis
    using *
    by (auto simp: start_worker_def QThread_start_def connect_thread_started_def log_warning_def
        Let_def split: prod.splits sum.splits option.splits)
qed

text \<open>The proxy forwards \<^verbatim>\<open>disconnect_all\<close> to its backend, building it first when there is none.\<close>

lemma EventBus_disconnect_all_forwards:
  "backend (EventBus_disconnect_all fresh bus sn) =
     Some (qt_disconnect_all (case backend bus of None \<Rightarrow> fresh | Some b \<Rightarrow> b) sn)"
  by (simp add: EventBus_disconnect_all_def qobject_def split: option.splits)

end
